theory Spec2Isabelle
  imports Main
begin

section \<open>The ordered identity set (class \<open>Set\<close>)\<close>

text \<open>
  \<open>Set\<close> is a Python list whose elements are compared with \<open>is\<close>. Its elements are
  object references; a reference is modelled by the address of the object, so \<open>is\<close>
  on references is equality of addresses.
\<close>

type_synonym ref = nat

text \<open>
  \<open>Set.add\<close>: scan the list; when an item is the value, return; otherwise append.
\<close>

fun add :: "'a \<Rightarrow> 'a list \<Rightarrow> 'a list" where
  "add x [] = [x]"
| "add x (item # rest) = (if item = x then item # rest else item # add x rest)"

text \<open>
  \<open>Set.discard\<close>: the loop of the source, with its counter. \<open>discard_scan x xs i\<close> is the
  value of \<open>i\<close> when the loop over \<open>xs\<close> ends, entered with the counter at \<open>i\<close>: every
  iteration increments the counter first and breaks on a match. After the loop the
  source pops index \<open>i\<close> whenever \<open>i\<close> is not \<open>-1\<close>.
\<close>

fun discard_scan :: "'a \<Rightarrow> 'a list \<Rightarrow> int \<Rightarrow> int" where
  "discard_scan x [] i = i"
| "discard_scan x (item # rest) i =
     (if item = x then i + 1 else discard_scan x rest (i + 1))"

definition pop :: "nat \<Rightarrow> 'a list \<Rightarrow> 'a list" where
  "pop i xs = take i xs @ drop (Suc i) xs"

definition discard :: "'a \<Rightarrow> 'a list \<Rightarrow> 'a list" where
  "discard x xs =
     (let i = discard_scan x xs (- 1) in if i \<noteq> - 1 then pop (nat i) xs else xs)"

text \<open>
  \<open>cleared\<close>: a copy of the items, and the set emptied. The pair is (copy, new contents).
\<close>

definition cleared :: "'a list \<Rightarrow> 'a list \<times> 'a list" where
  "cleared xs = (xs, [])"

section \<open>Values and callbacks\<close>

text \<open>
  Python values carry an identity. \<open>VNone\<close> is the singleton \<open>None\<close>; \<open>VInt\<close> is an
  integer whose object is shared, so that its identity is its value (CPython shares the
  integers from -5 to 256 only: an integer computed at run time outside that range is a
  new object, which \<open>VInt\<close> does not represent); \<open>VObj i c\<close> is any other object, of
  identity \<open>i\<close> and structural content \<open>c\<close>; \<open>VFun i body\<close> is a function object of no
  argument. A callback handed to the library is an expression of the small language
  \<open>exp\<close>: it reads, peeks and writes nodes, computes, leaves a mark in the output
  (\<open>Emit\<close>, standing for a side effect such as \<open>runs += 1\<close>), raises, and calls \<open>batch\<close>,
  \<open>untracked\<close> and the disposer of an effect.
\<close>

datatype val = VNone | VInt int | VObj nat int | VFun nat exp
and exp =
    Lit val
  | Read ref
  | Peek ref
  | Write ref exp
  | Seq exp exp
  | If exp exp exp
  | Plus exp exp
  | Times exp exp
  | Emit nat
  | Throw
  | Batch exp
  | Untracked exp
  | Dispose ref

text \<open>\<open>a is b\<close>.\<close>

fun is_same :: "val \<Rightarrow> val \<Rightarrow> bool" where
  "is_same VNone VNone = True"
| "is_same (VInt a) (VInt b) = (a = b)"
| "is_same (VObj i _) (VObj j _) = (i = j)"
| "is_same (VFun i _) (VFun j _) = (i = j)"
| "is_same _ _ = False"

text \<open>Structural equality \<open>a == b\<close> of two values.\<close>

fun struct_eq :: "val \<Rightarrow> val \<Rightarrow> bool" where
  "struct_eq VNone VNone = True"
| "struct_eq (VInt a) (VInt b) = (a = b)"
| "struct_eq (VObj _ c) (VObj _ d) = (c = d)"
| "struct_eq (VFun i _) (VFun j _) = (i = j)"
| "struct_eq _ _ = False"

fun callable :: "val \<Rightarrow> bool" where
  "callable (VFun _ _) = True"
| "callable _ = False"

fun truthy :: "val \<Rightarrow> bool" where
  "truthy VNone = False"
| "truthy (VInt n) = (n \<noteq> 0)"
| "truthy _ = True"

datatype error = Raised | AttributeError | TypeError | NameError

section \<open>Nodes and the global state\<close>

text \<open>
  The producer of a \<open>Computed\<close> (its \<open>_value\<close>) is either a function of the user or the
  inner function \<open>effect\<close> that \<open>effect(callback)\<close> builds around the callback.
\<close>

datatype producer = Lambda exp | EffectFn exp

text \<open>
  One record for the objects of classes \<open>Signal\<close> and \<open>Computed\<close>: \<open>items\<close> is the list
  the object is (both classes derive from \<open>Set\<close>); \<open>self_value\<close> is \<open>_value\<close> of a signal and
  \<open>produce\<close> is \<open>_value\<close> of a computed; \<open>self_compute\<close>, \<open>self_computed\<close> and \<open>self_subscribe\<close> are
  \<open>_compute\<close>, \<open>_computed\<close> and \<open>_subscribe\<close>. \<open>fx_value\<close> is the variable \<open>value\<close> of
  \<open>effect(callback)\<close>, which the closures \<open>effect\<close> and \<open>cleanup\<close> of one effect share.
\<close>

record node =
  items :: "ref list"
  is_computed :: bool
  self_value :: val
  produce :: producer
  self_compute :: bool
  self_computed :: val
  self_subscribe :: bool
  fx_value :: val

text \<open>
  The module's globals \<open>batched\<close>, \<open>synchronous\<close>, \<open>tracked\<close> and \<open>computing\<close>, the heap of
  nodes (a reference is an index into it), and the output written by \<open>Emit\<close>.
\<close>

record state =
  heap :: "node list"
  batched :: "ref list"
  synchronous :: bool
  tracked :: bool
  computing :: "ref option"
  out :: "nat list"

definition init :: state where
  "init = \<lparr>heap = [], batched = [], synchronous = True, tracked = True,
           computing = None, out = []\<rparr>"

definition lookup :: "state \<Rightarrow> ref \<Rightarrow> node option" where
  "lookup st a = (if a < length (heap st) then Some (heap st ! a) else None)"

definition put :: "ref \<Rightarrow> node \<Rightarrow> state \<Rightarrow> state" where
  "put a n st = st\<lparr>heap := (heap st)[a := n]\<rparr>"

text \<open>\<open>target.add(x)\<close> and \<open>target.discard(x)\<close> on the object at \<open>target\<close>.\<close>

definition add_item :: "ref \<Rightarrow> ref \<Rightarrow> state \<Rightarrow> state" where
  "add_item target x st =
     (case lookup st target of
        None \<Rightarrow> st
      | Some n \<Rightarrow> put target (n\<lparr>items := add x (items n)\<rparr>) st)"

definition discard_item :: "ref \<Rightarrow> ref \<Rightarrow> state \<Rightarrow> state" where
  "discard_item target x st =
     (case lookup st target of
        None \<Rightarrow> st
      | Some n \<Rightarrow> put target (n\<lparr>items := discard x (items n)\<rparr>) st)"

section \<open>Results\<close>

text \<open>
  A call returns a value or raises, and leaves a state either way; \<open>None\<close> is a call
  that has not returned within the fuel.
\<close>

type_synonym 'a result = "((error + 'a) \<times> state) option"

definition ok :: "'a \<Rightarrow> state \<Rightarrow> 'a result" where
  "ok v st = Some (Inr v, st)"

definition raise :: "error \<Rightarrow> state \<Rightarrow> 'a result" where
  "raise e st = Some (Inl e, st)"

definition bind :: "'a result \<Rightarrow> ('a \<Rightarrow> state \<Rightarrow> 'b result) \<Rightarrow> 'b result" where
  "bind m f =
     (case m of
        None \<Rightarrow> None
      | Some (Inl e, st) \<Rightarrow> Some (Inl e, st)
      | Some (Inr v, st) \<Rightarrow> f v st)"

text \<open>\<open>try: m finally: g\<close>, for a finaliser that assigns globals.\<close>

definition finally_do :: "'a result \<Rightarrow> (state \<Rightarrow> state) \<Rightarrow> 'a result" where
  "finally_do m g = (case m of None \<Rightarrow> None | Some (r, st) \<Rightarrow> Some (r, g st))"

section \<open>Signal\<close>

definition new_signal :: "val \<Rightarrow> node" where
  "new_signal v = \<lparr>items = [], is_computed = False, self_value = v, produce = Lambda (Lit VNone),
                   self_compute = False, self_computed = VNone, self_subscribe = False, fx_value = VNone\<rparr>"

text \<open>\<open>signal(value)\<close>: the new object's reference and the state holding it.\<close>

definition signal :: "val \<Rightarrow> state \<Rightarrow> ref \<times> state" where
  "signal v st = (length (heap st), st\<lparr>heap := heap st @ [new_signal v]\<rparr>)"

text \<open>The getter of \<open>Signal.value\<close>, on the signal \<open>self\<close> whose object is \<open>n\<close>.\<close>

definition signal_value :: "ref \<Rightarrow> node \<Rightarrow> state \<Rightarrow> val result" where
  "signal_value self n st =
     (case computing st of
        Some c \<Rightarrow>
          if tracked st
          then ok (self_value n) (add_item self c (add_item c self st))
          else ok (self_value n) st
      | None \<Rightarrow> ok (self_value n) st)"

definition signal_peek :: "node \<Rightarrow> state \<Rightarrow> val result" where
  "signal_peek n st = ok (self_value n) st"

section \<open>Computed\<close>

definition new_computed :: "producer \<Rightarrow> bool \<Rightarrow> node" where
  "new_computed f fx = \<lparr>items = [], is_computed = True, self_value = VNone, produce = f,
                        self_compute = True, self_computed = VNone, self_subscribe = (\<not> fx), fx_value = VNone\<rparr>"

definition computed :: "exp \<Rightarrow> state \<Rightarrow> ref \<times> state" where
  "computed f st = (length (heap st), st\<lparr>heap := heap st @ [new_computed (Lambda f) False]\<rparr>)"

text \<open>
  The library calls back into user code. Every function below that may do so takes
  \<open>ev\<close>, the evaluator of a callback's body, as its first argument; \<open>eval\<close> at the end
  closes the recursion.
\<close>

type_synonym evaluator = "exp \<Rightarrow> state \<Rightarrow> val result"

text \<open>\<open>v()\<close> for a value \<open>v\<close>.\<close>

definition call :: "evaluator \<Rightarrow> val \<Rightarrow> state \<Rightarrow> val result" where
  "call ev v st = (case v of VFun _ body \<Rightarrow> ev body st | _ \<Rightarrow> raise TypeError st)"

text \<open>
  \<open>self._value()\<close>. The inner function \<open>effect\<close> calls the stored \<open>value\<close> when it is
  callable, then stores the callback's result in \<open>value\<close>, and returns \<open>None\<close>.
\<close>

definition invoke :: "evaluator \<Rightarrow> ref \<Rightarrow> producer \<Rightarrow> state \<Rightarrow> val result" where
  "invoke ev self f st =
     (case f of
        Lambda body \<Rightarrow> ev body st
      | EffectFn callback \<Rightarrow>
          bind (case lookup st self of
                  None \<Rightarrow> raise NameError st
                | Some n \<Rightarrow> if callable (fx_value n) then call ev (fx_value n) st else ok VNone st)
            (\<lambda>_ st1. bind (ev callback st1)
              (\<lambda>v st2. case lookup st2 self of
                          None \<Rightarrow> raise NameError st2
                        | Some n2 \<Rightarrow> ok VNone (put self (n2\<lparr>fx_value := v\<rparr>) st2))))"

text \<open>\<open>Computed._run\<close>.\<close>

definition run :: "evaluator \<Rightarrow> ref \<Rightarrow> state \<Rightarrow> val result" where
  "run ev self st =
     (case lookup st self of
        None \<Rightarrow> raise NameError st
      | Some n \<Rightarrow>
          if self_compute n then
            let previously = computing st;
                st1 = (put self (n\<lparr>self_compute := False, items := []\<rparr>) st)\<lparr>computing := Some self\<rparr>
            in finally_do
                 (bind (invoke ev self (produce n) st1)
                    (\<lambda>v st2. case lookup st2 self of
                                None \<Rightarrow> raise NameError st2
                              | Some n2 \<Rightarrow> ok VNone (put self (n2\<lparr>self_computed := v\<rparr>) st2)))
                 (\<lambda>st3. st3\<lparr>computing := previously\<rparr>)
          else ok VNone st)"

text \<open>\<open>Computed._update\<close>.\<close>

definition update :: "evaluator \<Rightarrow> ref \<Rightarrow> state \<Rightarrow> val result" where
  "update ev self st =
     (case lookup st self of
        None \<Rightarrow> raise NameError st
      | Some n \<Rightarrow>
          if \<not> is_computed n then raise AttributeError st
          else
            let st1 = put self (n\<lparr>self_compute := True\<rparr>) st in
            if synchronous st1
            then (if self_subscribe n then ok VNone st1 else run ev self st1)
            else ok VNone (st1\<lparr>batched := add self (batched st1)\<rparr>))"

text \<open>The loop \<open>for computed in cleared(self): computed._update()\<close> of the setter.\<close>

fun notify :: "evaluator \<Rightarrow> ref list \<Rightarrow> state \<Rightarrow> val result" where
  "notify ev [] st = ok VNone st"
| "notify ev (c # cs) st = bind (update ev c st) (\<lambda>_ st1. notify ev cs st1)"

text \<open>
  The setter of \<open>Signal.value\<close>. \<open>Computed\<close> redefines the property \<open>value\<close> with a getter
  only, so assigning to it raises.
\<close>

definition signal_set_value :: "evaluator \<Rightarrow> ref \<Rightarrow> val \<Rightarrow> state \<Rightarrow> val result" where
  "signal_set_value ev self v st =
     (case lookup st self of
        None \<Rightarrow> raise NameError st
      | Some n \<Rightarrow>
          if is_computed n then raise AttributeError st
          else if \<not> is_same (self_value n) v then
            let (snapshot, emptied) = cleared (items n);
                st1 = put self (n\<lparr>self_value := v, items := emptied\<rparr>) st
            in notify ev snapshot st1
          else ok VNone st)"

text \<open>
  The loop of the getter of \<open>Computed.value\<close>:
  \<open>computing.add(signal); signal.add(computing)\<close> for every drained signal.
\<close>

fun flatten :: "ref \<Rightarrow> ref list \<Rightarrow> state \<Rightarrow> state" where
  "flatten c [] st = st"
| "flatten c (s # ss) st = flatten c ss (add_item s c (add_item c s st))"

text \<open>The getter of \<open>Computed.value\<close>.\<close>

definition computed_value :: "evaluator \<Rightarrow> ref \<Rightarrow> state \<Rightarrow> val result" where
  "computed_value ev self st =
     bind (run ev self st)
       (\<lambda>_ st1. case lookup st1 self of
                   None \<Rightarrow> raise NameError st1
                 | Some n \<Rightarrow>
                     (case computing st1 of
                        Some c \<Rightarrow>
                          if self_subscribe n \<and> tracked st1 then
                            let (snapshot, emptied) = cleared (items n);
                                st2 = put self (n\<lparr>items := emptied\<rparr>) st1
                            in ok (self_computed n) (flatten c snapshot st2)
                          else ok (self_computed n) st1
                      | None \<Rightarrow> ok (self_computed n) st1))"

definition computed_peek :: "evaluator \<Rightarrow> ref \<Rightarrow> state \<Rightarrow> val result" where
  "computed_peek ev self st =
     bind (run ev self st)
       (\<lambda>_ st1. case lookup st1 self of
                   None \<Rightarrow> raise NameError st1
                 | Some n \<Rightarrow> ok (self_computed n) st1)"

section \<open>effect, batch, untracked\<close>

text \<open>
  \<open>effect(callback)\<close> builds the node \<open>fx\<close>, reads \<open>fx.value\<close> and returns the closure
  \<open>cleanup\<close>; the model returns the reference \<open>fx\<close>, which names that closure.
\<close>

definition effect :: "evaluator \<Rightarrow> exp \<Rightarrow> state \<Rightarrow> ref result" where
  "effect ev callback st =
     (let fx = length (heap st);
          st1 = st\<lparr>heap := heap st @ [new_computed (EffectFn callback) True]\<rparr>
      in bind (computed_value ev fx st1) (\<lambda>_ st2. ok fx st2))"

text \<open>
  The loop \<open>for signal in cleared(fx): signal.discard(fx)\<close> of \<open>cleanup\<close>, on the
  effect \<open>fx\<close> whose object is \<open>n\<close>.
\<close>

definition unsubscribe :: "ref \<Rightarrow> node \<Rightarrow> state \<Rightarrow> state" where
  "unsubscribe fx n st =
     (let (snapshot, emptied) = cleared (items n);
          st1 = put fx (n\<lparr>items := emptied\<rparr>) st
      in fold (\<lambda>signal. discard_item signal fx) snapshot st1)"

text \<open>The closure \<open>cleanup\<close> of the effect \<open>fx\<close>.\<close>

definition cleanup :: "evaluator \<Rightarrow> ref \<Rightarrow> state \<Rightarrow> val result" where
  "cleanup ev fx st =
     (case lookup st fx of
        None \<Rightarrow> raise NameError st
      | Some n \<Rightarrow>
          let st2 = unsubscribe fx n st
          in if callable (fx_value n) then bind (call ev (fx_value n) st2) (\<lambda>_ st3. ok VNone st3)
             else ok VNone st2)"

text \<open>The loop of \<open>batch\<close> over the drained queue.\<close>

fun flush :: "evaluator \<Rightarrow> ref list \<Rightarrow> state \<Rightarrow> val result" where
  "flush ev [] st = ok VNone st"
| "flush ev (b # bs) st =
     (case lookup st b of
        None \<Rightarrow> raise NameError st
      | Some n \<Rightarrow>
          if self_compute n then bind (update ev b st) (\<lambda>_ st1. flush ev bs st1)
          else flush ev bs st)"

definition batch :: "evaluator \<Rightarrow> exp \<Rightarrow> state \<Rightarrow> val result" where
  "batch ev callback st =
     (let finalize = synchronous st;
          st1 = st\<lparr>synchronous := False\<rparr>
      in finally_do
           (bind (ev callback st1)
              (\<lambda>_ st2. if finalize \<and> length (batched st2) \<noteq> 0 then
                          let st3 = st2\<lparr>synchronous := finalize\<rparr>;
                              (snapshot, emptied) = cleared (batched st3)
                          in flush ev snapshot (st3\<lparr>batched := emptied\<rparr>)
                        else ok VNone st2))
           (\<lambda>st4. st4\<lparr>synchronous := finalize\<rparr>))"

definition untracked :: "evaluator \<Rightarrow> exp \<Rightarrow> state \<Rightarrow> val result" where
  "untracked ev callback st =
     (let tracking = tracked st;
          st1 = st\<lparr>tracked := False\<rparr>
      in finally_do (ev callback st1) (\<lambda>st2. st2\<lparr>tracked := tracking\<rparr>))"

section \<open>Callbacks\<close>

definition arith :: "(int \<Rightarrow> int \<Rightarrow> int) \<Rightarrow> val \<Rightarrow> val \<Rightarrow> state \<Rightarrow> val result" where
  "arith f a b st =
     (case (a, b) of (VInt x, VInt y) \<Rightarrow> ok (VInt (f x y)) st | _ \<Rightarrow> raise TypeError st)"

text \<open>
  One step of a callback's body; \<open>ev\<close> evaluates what the step calls. \<open>Read\<close> and \<open>Peek\<close>
  dispatch on the class of the object, as attribute lookup does.
\<close>

definition exec :: "evaluator \<Rightarrow> exp \<Rightarrow> state \<Rightarrow> val result" where
  "exec ev e st =
     (case e of
        Lit v \<Rightarrow> ok v st
      | Read a \<Rightarrow>
          (case lookup st a of
             None \<Rightarrow> raise NameError st
           | Some n \<Rightarrow> if is_computed n then computed_value ev a st else signal_value a n st)
      | Peek a \<Rightarrow>
          (case lookup st a of
             None \<Rightarrow> raise NameError st
           | Some n \<Rightarrow> if is_computed n then computed_peek ev a st else signal_peek n st)
      | Write a e1 \<Rightarrow> bind (ev e1 st) (\<lambda>v st1. signal_set_value ev a v st1)
      | Seq e1 e2 \<Rightarrow> bind (ev e1 st) (\<lambda>_ st1. ev e2 st1)
      | If c e1 e2 \<Rightarrow> bind (ev c st) (\<lambda>v st1. if truthy v then ev e1 st1 else ev e2 st1)
      | Plus e1 e2 \<Rightarrow> bind (ev e1 st) (\<lambda>a st1. bind (ev e2 st1) (\<lambda>b st2. arith (+) a b st2))
      | Times e1 e2 \<Rightarrow> bind (ev e1 st) (\<lambda>a st1. bind (ev e2 st1) (\<lambda>b st2. arith (*) a b st2))
      | Emit k \<Rightarrow> ok VNone (st\<lparr>out := out st @ [k]\<rparr>)
      | Throw \<Rightarrow> raise Raised st
      | Batch e1 \<Rightarrow> batch ev e1 st
      | Untracked e1 \<Rightarrow> untracked ev e1 st
      | Dispose fx \<Rightarrow> cleanup ev fx st)"

text \<open>
  The evaluator with fuel: every nested evaluation spends one unit, and \<open>None\<close> is
  "not returned within the fuel".
\<close>

primrec eval :: "nat \<Rightarrow> exp \<Rightarrow> state \<Rightarrow> val result" where
  "eval 0 e st = None"
| "eval (Suc k) e st = exec (eval k) e st"

section \<open>Programs using the library\<close>

text \<open>
  A program at top level: it creates signals, computeds and effects and runs statements.
  References are indices into the heap, so the \<open>k\<close>-th node created from \<open>init\<close> is
  reference \<open>k\<close>. \<open>script\<close> runs the statements in turn, each under \<open>try\<close>: it records
  what every statement returned or raised and goes on with the state left behind.
\<close>

datatype stmt = NewSignal val | NewComputed exp | NewEffect exp | Do exp

definition stmt_exec :: "nat \<Rightarrow> stmt \<Rightarrow> state \<Rightarrow> val result" where
  "stmt_exec k s st =
     (case s of
        NewSignal v \<Rightarrow> ok VNone (snd (signal v st))
      | NewComputed f \<Rightarrow> ok VNone (snd (computed f st))
      | NewEffect callback \<Rightarrow> bind (effect (eval k) callback st) (\<lambda>_ st1. ok VNone st1)
      | Do e \<Rightarrow> eval k e st)"

fun script :: "nat \<Rightarrow> stmt list \<Rightarrow> state \<Rightarrow> ((error + val) list \<times> state) option" where
  "script k [] st = Some ([], st)"
| "script k (s # ss) st =
     (case stmt_exec k s st of
        None \<Rightarrow> None
      | Some (r, st1) \<Rightarrow>
          (case script k ss st1 of
             None \<Rightarrow> None
           | Some (rs, st2) \<Rightarrow> Some (r # rs, st2)))"

text \<open>What a program's statements returned, what it emitted, and a node's list afterwards.\<close>

definition returns :: "nat \<Rightarrow> stmt list \<Rightarrow> (error + val) list option" where
  "returns k prog = map_option fst (script k prog init)"

definition emitted :: "nat \<Rightarrow> stmt list \<Rightarrow> nat list option" where
  "emitted k prog = map_option (\<lambda>(rs, st). out st) (script k prog init)"

definition items_of :: "nat \<Rightarrow> stmt list \<Rightarrow> ref \<Rightarrow> ref list option" where
  "items_of k prog a =
     (case script k prog init of
        None \<Rightarrow> None
      | Some (rs, st) \<Rightarrow> map_option items (lookup st a))"

definition dirty_of :: "nat \<Rightarrow> stmt list \<Rightarrow> ref \<Rightarrow> bool option" where
  "dirty_of k prog a =
     (case script k prog init of
        None \<Rightarrow> None
      | Some (rs, st) \<Rightarrow> map_option self_compute (lookup st a))"

definition globals_of ::
  "nat \<Rightarrow> stmt list \<Rightarrow> (ref list \<times> bool \<times> bool \<times> ref option) option" where
  "globals_of k prog =
     map_option (\<lambda>(rs, st). (batched st, synchronous st, tracked st, computing st))
       (script k prog init)"

text \<open>
  A callback that only reads and peeks plain signals and computes with what it read;
  \<open>depth\<close> is the nesting of its evaluation.
\<close>

fun reads_only :: "state \<Rightarrow> exp \<Rightarrow> bool" where
  "reads_only st (Lit v) = True"
| "reads_only st (Read a) = (case lookup st a of None \<Rightarrow> False | Some n \<Rightarrow> \<not> is_computed n)"
| "reads_only st (Peek a) = (case lookup st a of None \<Rightarrow> False | Some n \<Rightarrow> \<not> is_computed n)"
| "reads_only st (Seq e1 e2) = (reads_only st e1 \<and> reads_only st e2)"
| "reads_only st (If c e1 e2) = (reads_only st c \<and> reads_only st e1 \<and> reads_only st e2)"
| "reads_only st (Plus e1 e2) = (reads_only st e1 \<and> reads_only st e2)"
| "reads_only st (Times e1 e2) = (reads_only st e1 \<and> reads_only st e2)"
| "reads_only st _ = False"

fun depth :: "exp \<Rightarrow> nat" where
  "depth (Seq e1 e2) = Suc (max (depth e1) (depth e2))"
| "depth (If c e1 e2) = Suc (max (depth c) (max (depth e1) (depth e2)))"
| "depth (Plus e1 e2) = Suc (max (depth e1) (depth e2))"
| "depth (Times e1 e2) = Suc (max (depth e1) (depth e2))"
| "depth (Write a e1) = Suc (depth e1)"
| "depth (Batch e1) = Suc (depth e1)"
| "depth (Untracked e1) = Suc (depth e1)"
| "depth _ = 1"

text \<open>
  The state after \<open>s = signal(1)\<close> (node 0) and an effect whose callback reads \<open>s\<close> and
  marks 0 (node 1): each is in the other's list, and the effect is clean.
\<close>

definition linked_state :: state where
  "linked_state =
     \<lparr>heap = [(new_signal (VInt 1))\<lparr>items := [1]\<rparr>,
              (new_computed (EffectFn (Seq (Read 0) (Emit 0))) True)
                \<lparr>items := [0], self_compute := False\<rparr>],
      batched = [], synchronous = True, tracked = True, computing = None, out = [0]\<rparr>"

text \<open>
  The state after \<open>c = computed(f)\<close> for an \<open>f\<close> that raises, and one read of \<open>c.value\<close>.
\<close>

definition raised_state :: state where
  "raised_state =
     \<lparr>heap = [(new_computed (Lambda Throw) False)\<lparr>self_compute := False\<rparr>],
      batched = [], synchronous = True, tracked = True, computing = None, out = []\<rparr>"









subsection \<open>The programs of the properties\<close>

text \<open>
  A computed over \<open>cond.value ? a.value : b.value\<close> (nodes 0, 1, 2; the computed is node
  3, and marks each run of its producer with \<open>Emit 0\<close>), read once, then \<open>cond\<close> flipped
  and the computed read again.
\<close>

definition branch_prog :: "int \<Rightarrow> int \<Rightarrow> stmt list" where
  "branch_prog x y =
     [NewSignal (VInt 1), NewSignal (VInt x), NewSignal (VInt y),
      NewComputed (Seq (Emit 0) (If (Read 0) (Read 1) (Read 2))),
      Do (Read 3), Do (Write 0 (Lit (VInt 0))), Do (Read 3)]"

text \<open>A computed (node 1) subscribed to a signal that is written inside a batch.\<close>

definition pending_computed_prog :: "stmt list" where
  "pending_computed_prog =
     [NewSignal (VInt 1), NewComputed (Seq (Emit 0) (Read 0)), Do (Read 1),
      Do (Batch (Write 0 (Lit (VInt 2))))]"

text \<open>
  Two signals (0, 1), a computed over signal 0 (node 2, mark 0), an effect over signal 1
  (node 3, mark 1) and an effect over signal 0 (node 4, mark 2); a batch writes signal 0,
  then signal 1, and marks the end of its callback with 9.
\<close>

definition flush_order_prog :: "stmt list" where
  "flush_order_prog =
     [NewSignal (VInt 1), NewSignal (VInt 1), NewComputed (Seq (Emit 0) (Read 0)),
      NewEffect (Seq (Read 1) (Emit 1)), NewEffect (Seq (Read 0) (Emit 2)), Do (Read 2),
      Do (Batch (Seq (Write 0 (Lit (VInt 5))) (Seq (Write 1 (Lit (VInt 5))) (Emit 9))))]"




text \<open>
  A signal holding the object \<open>i\<close> of content \<open>c\<close>, an effect over it (mark 0), a write of
  the same object, mark 9, and a write of the object \<open>j\<close> of the same content.
\<close>

definition identity_prog :: "nat \<Rightarrow> nat \<Rightarrow> int \<Rightarrow> stmt list" where
  "identity_prog i j c =
     [NewSignal (VObj i c), NewEffect (Seq (Read 0) (Emit 0)),
      Do (Write 0 (Lit (VObj i c))), Do (Emit 9), Do (Write 0 (Lit (VObj j c)))]"

text \<open>
  \<open>s = signal(1); a = computed(lambda: s.value)\<close>, and two computeds reading \<open>a\<close>:
  \<open>b\<close> (node 2, mark 2) and \<open>d\<close> (node 3, mark 3). Both are read, \<open>s\<close> is written, and
  \<open>b\<close>, \<open>d\<close> and \<open>a\<close> are read again.
\<close>

definition two_readers_prog :: "stmt list" where
  "two_readers_prog =
     [NewSignal (VInt 1), NewComputed (Read 0),
      NewComputed (Seq (Emit 2) (Read 1)), NewComputed (Seq (Emit 3) (Read 1)),
      Do (Read 2), Do (Read 3), Do (Write 0 (Lit (VInt 2))),
      Do (Read 2), Do (Read 3), Do (Read 1)]"


text \<open>
  A signal (node 0) with an effect (node 1, mark 0) and a computed (node 2, mark 1) over
  it. A batch writes the signal, which empties the signal's list and enqueues the effect,
  reads the computed, which puts the computed in the signal's list, and disposes the
  effect, which discards the effect from a list that does not hold it. After the batch
  the computed is read, the signal is written and the computed is read again.
\<close>

definition dispose_absent_prog :: "stmt list" where
  "dispose_absent_prog =
     [NewSignal (VInt 1), NewEffect (Seq (Read 0) (Emit 0)), NewComputed (Seq (Emit 1) (Read 0)),
      Do (Batch (Seq (Write 0 (Lit (VInt 2))) (Seq (Read 2) (Dispose 1)))),
      Do (Read 2), Do (Write 0 (Lit (VInt 3))), Do (Read 2)]"




text \<open>An effect that reads its signal inside \<open>untracked\<close> only, and a write of the signal.\<close>

definition untracked_prog :: "int \<Rightarrow> int \<Rightarrow> stmt list" where
  "untracked_prog x y =
     [NewSignal (VInt x), NewEffect (Seq (Untracked (Read 0)) (Emit 0)),
      Do (Write 0 (Lit (VInt y)))]"

text \<open>
  A computed whose producer (mark 0) raises when the signal is falsy and returns twice
  the signal otherwise; and a computed whose producer always raises.
\<close>

definition raising_prog :: "stmt list" where
  "raising_prog =
     [NewSignal (VInt 1),
      NewComputed (Seq (Emit 0) (If (Read 0) (Times (Read 0) (Lit (VInt 2))) Throw)),
      Do (Read 1), Do (Write 0 (Lit (VInt 0))), Do (Read 1), Do (Read 1), Do (Peek 1),
      Do (Write 0 (Lit (VInt 5))), Do (Read 1)]"

definition always_raising_prog :: "stmt list" where
  "always_raising_prog =
     [NewComputed (Seq (Emit 0) Throw), Do (Read 0), Do (Read 0), Do (Peek 0)]"

definition raising_effect_prog :: "stmt list" where
  "raising_effect_prog =
     [NewSignal (VInt 1), NewEffect (Seq (Emit 0) (If (Read 0) (Lit VNone) Throw)),
      Do (Write 0 (Lit (VInt 0))), Do (Write 0 (Lit (VInt 3)))]"

section \<open>Properties\<close>

lemmas lib_defs = exec_def computed_value_def computed_peek_def signal_value_def
  signal_peek_def signal_set_value_def update_def run_def invoke_def call_def batch_def
  untracked_def cleanup_def unsubscribe_def effect_def bind_def ok_def raise_def finally_do_def cleared_def
  lookup_def put_def add_item_def discard_item_def arith_def signal_def computed_def
  new_signal_def new_computed_def stmt_exec_def init_def returns_def emitted_def
  items_of_def dirty_of_def globals_of_def discard_def pop_def

subsection \<open>The ordered identity set\<close>











text \<open>
  C2. \<open>discard\<close> of a value that no element of the set is: the set \<open>[0, 1]\<close> does not hold
  2, and discarding 2 from it removes the element 1. Through the library: in
  \<open>dispose_absent_prog\<close> the disposer discards the effect from the list of a signal that
  holds the computed only, and the computed is removed; the later write of 3 to the signal
  does not reach the computed, whose read still returns 2.
\<close>

theorem discard_absent_pops_last:
  "(2::nat) \<notin> set [0, 1] \<and> discard 2 [0, 1] = [0::nat] \<and>
   items_of 6 (take 4 dispose_absent_prog) 0 = Some [1] \<and>
   returns 6 dispose_absent_prog =
     Some [Inr VNone, Inr VNone, Inr VNone, Inr VNone, Inr (VInt 2), Inr VNone, Inr (VInt 2)]"
  by (simp add: dispose_absent_prog_def lib_defs eval_nat_numeral)

subsection \<open>Results, lookups\<close>

lemma lookup_tracked [simp]: "lookup (st\<lparr>tracked := b\<rparr>) a = lookup st a"
  by (simp add: lookup_def)

lemma put_same: "lookup st a = Some n \<Longrightarrow> put a n st = st"
  by (auto simp: lookup_def put_def split: if_splits)

subsection \<open>More fuel\<close>

text \<open>
  A call that returns within some fuel returns the same result and state with any larger
  fuel. So everything stated below for a program at some fuel holds at all larger ones.
\<close>

lemma bind_mono:
  assumes "bind m f = Some r"
    and "\<And>x. m = Some x \<Longrightarrow> m' = Some x"
    and "\<And>v s. f v s = Some r \<Longrightarrow> f' v s = Some r"
  shows "bind m' f' = Some r"
proof (cases m)
  case None
  with assms(1) show ?thesis by (simp add: bind_def)
next
  case (Some x)
  then have m': "m' = Some x" by (rule assms(2))
  obtain a s where x: "x = (a, s)" by (cases x)
  show ?thesis
  proof (cases a)
    case (Inl e)
    with assms(1) Some x m' show ?thesis by (simp add: bind_def)
  next
    case (Inr v)
    with assms(1) Some x have "f v s = Some r" by (simp add: bind_def)
    then have "f' v s = Some r" by (rule assms(3))
    with Inr Some x m' show ?thesis by (simp add: bind_def)
  qed
qed

lemma finally_do_mono:
  assumes "finally_do m g = Some r" and "\<And>x. m = Some x \<Longrightarrow> m' = Some x"
  shows "finally_do m' g = Some r"
  using assms by (cases m) (auto simp: finally_do_def)

lemma call_mono:
  assumes le: "\<And>e st r. ev e st = Some r \<Longrightarrow> ev' e st = Some r"
    and "call ev v st = Some r"
  shows "call ev' v st = Some r"
  using assms by (cases v) (auto simp: call_def)

lemma invoke_mono:
  assumes le: "\<And>e st r. ev e st = Some r \<Longrightarrow> ev' e st = Some r"
    and h: "invoke ev self f st = Some r"
  shows "invoke ev' self f st = Some r"
proof (cases f)
  case (Lambda body)
  with h le show ?thesis by (simp add: invoke_def)
next
  case (EffectFn callback)
  with h have b: "bind (case lookup st self of
                  None \<Rightarrow> raise NameError st
                | Some n \<Rightarrow> if callable (fx_value n) then call ev (fx_value n) st else ok VNone st)
            (\<lambda>_ st1. bind (ev callback st1)
              (\<lambda>v st2. case lookup st2 self of
                          None \<Rightarrow> raise NameError st2
                        | Some n2 \<Rightarrow> ok VNone (put self (n2\<lparr>fx_value := v\<rparr>) st2))) = Some r"
    by (simp add: invoke_def)
  have "bind (case lookup st self of
                  None \<Rightarrow> raise NameError st
                | Some n \<Rightarrow> if callable (fx_value n) then call ev' (fx_value n) st else ok VNone st)
            (\<lambda>_ st1. bind (ev' callback st1)
              (\<lambda>v st2. case lookup st2 self of
                          None \<Rightarrow> raise NameError st2
                        | Some n2 \<Rightarrow> ok VNone (put self (n2\<lparr>fx_value := v\<rparr>) st2))) = Some r"
  proof (rule bind_mono [OF b])
    fix x
    assume "(case lookup st self of None \<Rightarrow> raise NameError st
        | Some n \<Rightarrow> if callable (fx_value n) then call ev (fx_value n) st else ok VNone st) = Some x"
    then show "(case lookup st self of None \<Rightarrow> raise NameError st
        | Some n \<Rightarrow> if callable (fx_value n) then call ev' (fx_value n) st else ok VNone st) = Some x"
      by (auto split: option.splits if_splits intro: call_mono [OF le])
  next
    fix v :: val and s
    assume "bind (ev callback s) (\<lambda>v st2. case lookup st2 self of
                          None \<Rightarrow> raise NameError st2
                        | Some n2 \<Rightarrow> ok VNone (put self (n2\<lparr>fx_value := v\<rparr>) st2)) = Some r"
    then show "bind (ev' callback s) (\<lambda>v st2. case lookup st2 self of
                          None \<Rightarrow> raise NameError st2
                        | Some n2 \<Rightarrow> ok VNone (put self (n2\<lparr>fx_value := v\<rparr>) st2)) = Some r"
      by (rule bind_mono) (auto intro: le)
  qed
  with EffectFn show ?thesis by (simp add: invoke_def)
qed

lemma run_mono:
  assumes le: "\<And>e st r. ev e st = Some r \<Longrightarrow> ev' e st = Some r"
    and h: "run ev self st = Some r"
  shows "run ev' self st = Some r"
proof (cases "lookup st self")
  case None
  with h show ?thesis by (simp add: run_def)
next
  case (Some n)
  show ?thesis
  proof (cases "self_compute n")
    case False
    with h Some show ?thesis by (simp add: run_def)
  next
    case True
    with h Some show ?thesis
      unfolding run_def Let_def
      by (auto elim!: finally_do_mono bind_mono intro: invoke_mono [OF le])
  qed
qed

lemma update_mono:
  assumes le: "\<And>e st r. ev e st = Some r \<Longrightarrow> ev' e st = Some r"
    and h: "update ev self st = Some r"
  shows "update ev' self st = Some r"
  using h unfolding update_def Let_def
  by (auto split: option.splits if_splits intro: run_mono [OF le])

lemma notify_mono:
  assumes le: "\<And>e st r. ev e st = Some r \<Longrightarrow> ev' e st = Some r"
  shows "notify ev cs st = Some r \<Longrightarrow> notify ev' cs st = Some r"
proof (induction cs arbitrary: st)
  case Nil
  then show ?case by simp
next
  case (Cons c cs)
  from Cons.prems show ?case
    by (auto elim!: bind_mono intro: update_mono [OF le] Cons.IH)
qed

lemma signal_set_value_mono:
  assumes le: "\<And>e st r. ev e st = Some r \<Longrightarrow> ev' e st = Some r"
    and h: "signal_set_value ev self v st = Some r"
  shows "signal_set_value ev' self v st = Some r"
  using h unfolding signal_set_value_def Let_def cleared_def
  by (auto split: option.splits if_splits intro: notify_mono [OF le])

lemma computed_value_mono:
  assumes le: "\<And>e st r. ev e st = Some r \<Longrightarrow> ev' e st = Some r"
    and h: "computed_value ev self st = Some r"
  shows "computed_value ev' self st = Some r"
  using h unfolding computed_value_def
  by (auto elim!: bind_mono intro: run_mono [OF le])

lemma computed_peek_mono:
  assumes le: "\<And>e st r. ev e st = Some r \<Longrightarrow> ev' e st = Some r"
    and h: "computed_peek ev self st = Some r"
  shows "computed_peek ev' self st = Some r"
  using h unfolding computed_peek_def
  by (auto elim!: bind_mono intro: run_mono [OF le])

lemma effect_mono:
  assumes le: "\<And>e st r. ev e st = Some r \<Longrightarrow> ev' e st = Some r"
    and h: "effect ev callback st = Some r"
  shows "effect ev' callback st = Some r"
  using h unfolding effect_def Let_def
  by (auto elim!: bind_mono intro: computed_value_mono [OF le])

lemma cleanup_mono:
  assumes le: "\<And>e st r. ev e st = Some r \<Longrightarrow> ev' e st = Some r"
    and h: "cleanup ev fx st = Some r"
  shows "cleanup ev' fx st = Some r"
  using h unfolding cleanup_def Let_def
  by (auto split: option.splits if_splits elim!: bind_mono intro: call_mono [OF le])

lemma flush_mono:
  assumes le: "\<And>e st r. ev e st = Some r \<Longrightarrow> ev' e st = Some r"
  shows "flush ev bs st = Some r \<Longrightarrow> flush ev' bs st = Some r"
proof (induction bs arbitrary: st)
  case Nil
  then show ?case by simp
next
  case (Cons b bs)
  from Cons.prems show ?case
    by (auto split: option.splits if_splits elim!: bind_mono
        intro: update_mono [OF le] Cons.IH)
qed

lemma batch_mono:
  assumes le: "\<And>e st r. ev e st = Some r \<Longrightarrow> ev' e st = Some r"
    and h: "batch ev callback st = Some r"
  shows "batch ev' callback st = Some r"
  using h unfolding batch_def Let_def cleared_def
  by (auto elim!: finally_do_mono bind_mono split: if_splits intro: le flush_mono [OF le])

lemma untracked_mono:
  assumes le: "\<And>e st r. ev e st = Some r \<Longrightarrow> ev' e st = Some r"
    and h: "untracked ev callback st = Some r"
  shows "untracked ev' callback st = Some r"
  using h unfolding untracked_def Let_def
  by (auto elim!: finally_do_mono intro: le)

lemma exec_mono:
  assumes le: "\<And>e st r. ev e st = Some r \<Longrightarrow> ev' e st = Some r"
    and h: "exec ev e st = Some r"
  shows "exec ev' e st = Some r"
proof (cases e)
  case (Read a)
  with h show ?thesis
    by (auto simp: exec_def split: option.splits if_splits intro: computed_value_mono [OF le])
next
  case (Peek a)
  with h show ?thesis
    by (auto simp: exec_def split: option.splits if_splits intro: computed_peek_mono [OF le])
next
  case (Write a e1)
  with h show ?thesis
    by (auto simp: exec_def elim!: bind_mono intro: le signal_set_value_mono [OF le])
next
  case (Seq e1 e2)
  with h show ?thesis by (auto simp: exec_def elim!: bind_mono intro: le)
next
  case (If c e1 e2)
  with h show ?thesis by (auto simp: exec_def elim!: bind_mono split: if_splits intro: le)
next
  case (Plus e1 e2)
  with h show ?thesis by (auto simp: exec_def elim!: bind_mono intro: le)
next
  case (Times e1 e2)
  with h show ?thesis by (auto simp: exec_def elim!: bind_mono intro: le)
next
  case (Batch e1)
  with h show ?thesis by (auto simp: exec_def intro: batch_mono [OF le])
next
  case (Untracked e1)
  with h show ?thesis by (auto simp: exec_def intro: untracked_mono [OF le])
next
  case (Dispose fx)
  with h show ?thesis by (auto simp: exec_def intro: cleanup_mono [OF le])
qed (use h in \<open>simp_all add: exec_def\<close>)

lemma eval_Suc: "eval k e st = Some r \<Longrightarrow> eval (Suc k) e st = Some r"
proof (induction k arbitrary: e st r)
  case 0
  then show ?case by simp
next
  case (Suc k)
  have "exec (eval k) e st = Some r" using Suc.prems by simp
  then have "exec (eval (Suc k)) e st = Some r"
    by (rule exec_mono [rotated]) (rule Suc.IH)
  then show ?case by simp
qed

lemma eval_more_fuel: "eval k e st = Some r \<Longrightarrow> k \<le> k' \<Longrightarrow> eval k' e st = Some r"
proof (induction k')
  case 0
  then show ?case by simp
next
  case (Suc k')
  show ?case
  proof (cases "k = Suc k'")
    case True
    with Suc.prems show ?thesis by simp
  next
    case False
    with Suc.prems have "k \<le> k'" by simp
    with Suc have "eval k' e st = Some r" by simp
    then show ?thesis by (rule eval_Suc)
  qed
qed

lemma stmt_exec_more_fuel:
  "stmt_exec k s st = Some r \<Longrightarrow> k \<le> k' \<Longrightarrow> stmt_exec k' s st = Some r"
  unfolding stmt_exec_def
  by (cases s) (auto elim!: bind_mono intro: eval_more_fuel effect_mono [rotated])

lemma script_more_fuel:
  "script k prog st = Some r \<Longrightarrow> k \<le> k' \<Longrightarrow> script k' prog st = Some r"
proof (induction prog arbitrary: st r)
  case Nil
  then show ?case by simp
next
  case (Cons s ss)
  from Cons.prems(1) obtain a st1 rs st2 where
    1: "stmt_exec k s st = Some (a, st1)" and 2: "script k ss st1 = Some (rs, st2)"
    and r: "r = (a # rs, st2)"
    by (auto split: option.splits prod.splits)
  from 1 Cons.prems(2) have "stmt_exec k' s st = Some (a, st1)" by (rule stmt_exec_more_fuel)
  moreover from 2 Cons.prems(2) have "script k' ss st1 = Some (rs, st2)" by (rule Cons.IH)
  ultimately show ?case using r by simp
qed

text \<open>The same for what is observed of a program.\<close>

lemma returns_more_fuel:
  "returns k prog = Some x \<Longrightarrow> k \<le> k' \<Longrightarrow> returns k' prog = Some x"
  unfolding returns_def by (auto dest: script_more_fuel)

lemma emitted_more_fuel:
  "emitted k prog = Some x \<Longrightarrow> k \<le> k' \<Longrightarrow> emitted k' prog = Some x"
  unfolding emitted_def by (auto dest: script_more_fuel)

lemma items_of_more_fuel:
  "items_of k prog a = Some x \<Longrightarrow> k \<le> k' \<Longrightarrow> items_of k' prog a = Some x"
  unfolding items_of_def by (auto dest: script_more_fuel split: option.splits)

lemma dirty_of_more_fuel:
  "dirty_of k prog a = Some x \<Longrightarrow> k \<le> k' \<Longrightarrow> dirty_of k' prog a = Some x"
  unfolding dirty_of_def by (auto dest: script_more_fuel split: option.splits)

lemma globals_of_more_fuel:
  "globals_of k prog = Some x \<Longrightarrow> k \<le> k' \<Longrightarrow> globals_of k' prog = Some x"
  unfolding globals_of_def by (auto dest: script_more_fuel)

lemmas more_fuel = returns_more_fuel emitted_more_fuel items_of_more_fuel dirty_of_more_fuel
  globals_of_more_fuel

subsection \<open>A computed over a branch\<close>

text \<open>
  C1, as stated, fails. With \<open>a = 10\<close> and \<open>b = 20\<close>: after \<open>cond\<close> is flipped and the
  computed is read again, the computed (node 3) is still in the list of \<open>a\<close> (node 1),
  the signal of the branch it left; a write of \<open>a\<close> marks it dirty, and its next read runs
  the producer a third time.
\<close>

theorem abandoned_branch_counterexample:
  "items_of 4 (branch_prog 10 20) 1 = Some [3] \<and>
   emitted 4 (branch_prog 10 20) = Some [0, 0] \<and>
   dirty_of 4 (branch_prog 10 20 @ [Do (Write 1 (Lit (VInt 11)))]) 3 = Some True \<and>
   emitted 4 (branch_prog 10 20 @ [Do (Write 1 (Lit (VInt 11))), Do (Read 3)]) = Some [0, 0, 0]"
  by (simp add: branch_prog_def lib_defs eval_nat_numeral)

text \<open>The program of the branch, continued by two writes to \<open>a\<close>, at fuel 4.\<close>

lemma branch_example:
  assumes "x \<noteq> x'" and "x' \<noteq> x''"
  shows "items_of 4 (branch_prog x y) 1 = Some [3] \<and>
    emitted 4 (branch_prog x y @ [Do (Write 1 (Lit (VInt x')))]) = Some [0, 0] \<and>
    dirty_of 4 (branch_prog x y @ [Do (Write 1 (Lit (VInt x')))]) 3 = Some True \<and>
    items_of 4 (branch_prog x y @ [Do (Write 1 (Lit (VInt x')))]) 1 = Some [] \<and>
    returns 4 (branch_prog x y @ [Do (Write 1 (Lit (VInt x'))), Do (Read 3)]) =
      Some [Inr VNone, Inr VNone, Inr VNone, Inr VNone, Inr (VInt x), Inr VNone,
            Inr (VInt y), Inr VNone, Inr (VInt y)] \<and>
    emitted 4 (branch_prog x y @ [Do (Write 1 (Lit (VInt x'))), Do (Read 3)]) = Some [0, 0, 0] \<and>
    dirty_of 4 (branch_prog x y @ [Do (Write 1 (Lit (VInt x'))), Do (Read 3),
                                   Do (Write 1 (Lit (VInt x'')))]) 3 = Some False \<and>
    emitted 4 (branch_prog x y @ [Do (Write 1 (Lit (VInt x'))), Do (Read 3),
                                   Do (Write 1 (Lit (VInt x''))), Do (Read 3)]) = Some [0, 0, 0]"
  using assms by (simp add: branch_prog_def lib_defs eval_nat_numeral)

text \<open>
  C1, amended. After \<open>cond\<close> is flipped and the computed is read again, the computed is
  still in the list of the signal \<open>a\<close> of the branch it left. The first write of a new
  value to \<open>a\<close> runs no producer, marks the computed dirty and empties the list of \<open>a\<close>;
  the next read of the computed runs its producer once more and returns the value of
  \<open>b\<close>. After that a further write to \<open>a\<close> leaves the computed clean, and a read runs no
  producer.
\<close>

theorem abandoned_branch_first_write:
  assumes "4 \<le> k" and "x \<noteq> x'" and "x' \<noteq> x''"
  shows "items_of k (branch_prog x y) 1 = Some [3] \<and>
    emitted k (branch_prog x y @ [Do (Write 1 (Lit (VInt x')))]) = Some [0, 0] \<and>
    dirty_of k (branch_prog x y @ [Do (Write 1 (Lit (VInt x')))]) 3 = Some True \<and>
    items_of k (branch_prog x y @ [Do (Write 1 (Lit (VInt x')))]) 1 = Some [] \<and>
    returns k (branch_prog x y @ [Do (Write 1 (Lit (VInt x'))), Do (Read 3)]) =
      Some [Inr VNone, Inr VNone, Inr VNone, Inr VNone, Inr (VInt x), Inr VNone,
            Inr (VInt y), Inr VNone, Inr (VInt y)] \<and>
    emitted k (branch_prog x y @ [Do (Write 1 (Lit (VInt x'))), Do (Read 3)]) = Some [0, 0, 0] \<and>
    dirty_of k (branch_prog x y @ [Do (Write 1 (Lit (VInt x'))), Do (Read 3),
                                   Do (Write 1 (Lit (VInt x'')))]) 3 = Some False \<and>
    emitted k (branch_prog x y @ [Do (Write 1 (Lit (VInt x'))), Do (Read 3),
                                   Do (Write 1 (Lit (VInt x''))), Do (Read 3)]) = Some [0, 0, 0]"
  using branch_example [OF assms(2,3)] by (auto intro!: more_fuel [OF _ assms(1)])

text \<open>The amended C1 at \<open>a = 10\<close>, \<open>b = 20\<close>, and the writes \<open>a = 11\<close>, \<open>a = 12\<close>.\<close>

theorem abandoned_branch_first_write_witness:
  "(4::nat) \<le> 4 \<and> (10::int) \<noteq> 11 \<and> (11::int) \<noteq> 12 \<and>
    items_of 4 (branch_prog 10 20) 1 = Some [3] \<and>
    dirty_of 4 (branch_prog 10 20 @ [Do (Write 1 (Lit (VInt 11)))]) 3 = Some True \<and>
    emitted 4 (branch_prog 10 20 @ [Do (Write 1 (Lit (VInt 11))), Do (Read 3),
                                   Do (Write 1 (Lit (VInt 12))), Do (Read 3)]) = Some [0, 0, 0]"
  using abandoned_branch_first_write [of 4 10 11 12 20] by simp

subsection \<open>The flush of a batch\<close>

text \<open>
  C3, as stated, fails. A computed that was evaluated once is invalidated inside a batch
  and so enters the pending set; when the batch ends the set is drained, the computed is
  still dirty, and its producer has not run again: its mark is in the output once.
\<close>

theorem flush_skips_computed_counterexample:
  "emitted 4 (take 3 pending_computed_prog) = Some [0] \<and>
   emitted 4 pending_computed_prog = Some [0] \<and>
   dirty_of 4 pending_computed_prog 1 = Some True \<and>
   globals_of 4 pending_computed_prog = Some ([], True, True, None)"
  by (simp add: pending_computed_prog_def lib_defs eval_nat_numeral)

text \<open>
  In immediate mode, \<open>_update\<close> on a node that is already dirty changes nothing for a
  value-exposing computed and calls \<open>_run\<close> for an effect.
\<close>

lemma update_dirty_sync:
  assumes "synchronous st" "lookup st b = Some n" "is_computed n" "self_compute n"
  shows "update ev b st = (if self_subscribe n then ok VNone st else run ev b st)"
proof -
  have "n\<lparr>self_compute := True\<rparr> = n" using assms(4) by simp
  then have "put b (n\<lparr>self_compute := True\<rparr>) st = st"
    using put_same [OF assms(2)] by simp
  then show ?thesis using assms by (simp add: update_def Let_def)
qed

lemma flush_step:
  assumes "synchronous st" "lookup st b = Some n" "is_computed n"
  shows "flush ev (b # bs) st =
      (if self_compute n \<and> \<not> self_subscribe n
       then bind (run ev b st) (\<lambda>_ st1. flush ev bs st1)
       else flush ev bs st)"
  using assms update_dirty_sync [OF assms(1,2,3), of ev]
  by (auto simp: bind_def ok_def)


lemma flush_order_example:
  "emitted 6 (take 6 flush_order_prog) = Some [1, 2, 0] \<and>
   emitted 6 flush_order_prog = Some [1, 2, 0, 9, 2, 1] \<and>
   dirty_of 6 flush_order_prog 2 = Some True \<and>
   globals_of 6 flush_order_prog = Some ([], True, True, None)"
  by (simp add: flush_order_prog_def lib_defs eval_nat_numeral)

lemma flush_order_example_fuel:
  assumes "6 \<le> k"
  shows "emitted k (take 6 flush_order_prog) = Some [1, 2, 0] \<and>
   emitted k flush_order_prog = Some [1, 2, 0, 9, 2, 1] \<and>
   dirty_of k flush_order_prog 2 = Some True \<and>
   globals_of k flush_order_prog = Some ([], True, True, None)"
  using flush_order_example by (auto intro!: more_fuel [OF _ assms])

text \<open>
  C3, amended. In the flush of the outermost batch (immediate mode restored), the drained
  nodes are taken in the order they were enqueued; a node that is a dirty effect when its
  turn comes is re-run, and any other node (a clean one, or a dirty value-exposing
  computed) is passed over with the state unchanged, so that a dirty computed stays dirty
  until it is read. In \<open>flush_order_prog\<close> the batch enqueues the effect over signal 0,
  the computed, then the effect over signal 1: after the mark 9 of the callback's end the
  two effects run in that order, each once, the computed does not run and is left dirty,
  and the pending set is empty.
\<close>

theorem flush_reruns_dirty_effects:
  "(synchronous st \<and> lookup st b = Some n \<and> is_computed n
      \<longrightarrow> flush ev (b # bs) st =
            (if self_compute n \<and> \<not> self_subscribe n
             then bind (run ev b st) (\<lambda>_ st1. flush ev bs st1)
             else flush ev bs st)) \<and>
   (6 \<le> k \<longrightarrow>
   emitted k (take 6 flush_order_prog) = Some [1, 2, 0] \<and>
   emitted k flush_order_prog = Some [1, 2, 0, 9, 2, 1] \<and>
   dirty_of k flush_order_prog 2 = Some True \<and>
   globals_of k flush_order_prog = Some ([], True, True, None))"
  using flush_step [of st b n ev bs] flush_order_example_fuel [of k]
  by blast

text \<open>
  The amended C3 on a state holding one dirty computed: the flush returns with that state,
  even with an evaluator that never returns, so no producer was called.
\<close>

theorem flush_reruns_dirty_effects_witness:
  "synchronous (snd (computed (Emit 0) init)) \<and>
   lookup (snd (computed (Emit 0) init)) 0 = Some (new_computed (Lambda (Emit 0)) False) \<and>
   is_computed (new_computed (Lambda (Emit 0)) False) \<and>
   flush (eval 0) [0] (snd (computed (Emit 0) init)) = ok VNone (snd (computed (Emit 0) init)) \<and>
   (6::nat) \<le> 6 \<and> emitted 6 flush_order_prog = Some [1, 2, 0, 9, 2, 1] \<and>
   dirty_of 6 flush_order_prog 2 = Some True"
  using flush_reruns_dirty_effects [of "snd (computed (Emit 0) init)" 0
      "new_computed (Lambda (Emit 0)) False" "eval 0" "[]" 6]
  by (simp add: computed_def init_def lookup_def new_computed_def)

subsection \<open>Effects, with and without a batch\<close>












subsection \<open>Laziness of a computed\<close>









lemma clean_read:
  assumes "lookup st c = Some n" "\<not> self_compute n"
  shows "run ev c st = ok VNone st \<and> computed_peek ev c st = ok (self_computed n) st \<and>
         (computing st = None \<longrightarrow> computed_value ev c st = ok (self_computed n) st)"
  using assms by (simp add: run_def computed_peek_def computed_value_def bind_def ok_def)



subsection \<open>Writing the value a signal already holds\<close>

lemma write_same:
  assumes "lookup st s = Some n" "\<not> is_computed n" "is_same (self_value n) v"
  shows "signal_set_value ev s v st = ok VNone st"
  using assms by (simp add: signal_set_value_def)

lemma identity_example:
  assumes "i \<noteq> j"
  shows "struct_eq (VObj i c) (VObj j c) \<and> \<not> is_same (VObj i c) (VObj j c) \<and>
         items_of 4 (take 2 (identity_prog i j c)) 0 = Some [1] \<and>
         items_of 4 (take 3 (identity_prog i j c)) 0 = Some [1] \<and>
         dirty_of 4 (take 3 (identity_prog i j c)) 1 = Some False \<and>
         emitted 4 (take 4 (identity_prog i j c)) = Some [0, 9] \<and>
         emitted 4 (identity_prog i j c) = Some [0, 9, 0]"
  using assms by (simp add: identity_prog_def lib_defs eval_nat_numeral)

lemma identity_example_fuel:
  assumes "4 \<le> k" "i \<noteq> j"
  shows "struct_eq (VObj i c) (VObj j c) \<and> \<not> is_same (VObj i c) (VObj j c) \<and>
         items_of k (take 2 (identity_prog i j c)) 0 = Some [1] \<and>
         items_of k (take 3 (identity_prog i j c)) 0 = Some [1] \<and>
         dirty_of k (take 3 (identity_prog i j c)) 1 = Some False \<and>
         emitted k (take 4 (identity_prog i j c)) = Some [0, 9] \<and>
         emitted k (identity_prog i j c) = Some [0, 9, 0]"
  using identity_example [OF assms(2)] by (auto intro!: more_fuel [OF _ assms(1)])

text \<open>
  C6. Writing to a signal a value that is the object it holds returns with the state
  unchanged, whatever the evaluator: no dependent is called, no list changes. And for
  two objects \<open>i \<noteq> j\<close> of equal content: with an effect subscribed to the signal,
  writing the held object \<open>i\<close> leaves the effect in the signal's list, clean and not
  re-run (the output is \<open>[0, 9]\<close> at mark 9), and writing \<open>j\<close> re-runs the effect.
\<close>

theorem write_identity_short_circuit:
  "(lookup st s = Some n \<and> \<not> is_computed n \<and> is_same (self_value n) v \<longrightarrow>
      signal_set_value ev s v st = ok VNone st) \<and>
   (4 \<le> k \<and> i \<noteq> j \<longrightarrow>
      struct_eq (VObj i c) (VObj j c) \<and> \<not> is_same (VObj i c) (VObj j c) \<and>
      items_of k (take 2 (identity_prog i j c)) 0 = Some [1] \<and>
      items_of k (take 3 (identity_prog i j c)) 0 = Some [1] \<and>
      dirty_of k (take 3 (identity_prog i j c)) 1 = Some False \<and>
      emitted k (take 4 (identity_prog i j c)) = Some [0, 9] \<and>
      emitted k (identity_prog i j c) = Some [0, 9, 0])"
  using write_same [of st s n v ev] identity_example_fuel [of k i j c] by blast

text \<open>C6 on a state holding one signal, and at the objects 1 and 2 of content 7.\<close>

theorem write_identity_short_circuit_witness:
  "lookup (snd (signal (VObj 1 7) init)) 0 = Some (new_signal (VObj 1 7)) \<and>
   \<not> is_computed (new_signal (VObj 1 7)) \<and>
   is_same (self_value (new_signal (VObj 1 7))) (VObj 1 7) \<and>
   signal_set_value (eval 0) 0 (VObj 1 7) (snd (signal (VObj 1 7) init)) =
     ok VNone (snd (signal (VObj 1 7) init)) \<and>
   (4::nat) \<le> 4 \<and> (1::nat) \<noteq> 2 \<and>
   emitted 4 (take 4 (identity_prog 1 2 7)) = Some [0, 9] \<and>
   emitted 4 (identity_prog 1 2 7) = Some [0, 9, 0]"
  using write_identity_short_circuit [of "snd (signal (VObj 1 7) init)" 0
      "new_signal (VObj 1 7)" "VObj 1 7" "eval 0" 4 1 2 7]
  by (simp add: signal_def init_def lookup_def new_signal_def)

subsection \<open>Two readers of one computed\<close>

text \<open>
  C7, on the code. \<open>b\<close> (node 2) and \<open>d\<close> (node 3) both read the computed \<open>a\<close> (node 1),
  which reads the signal \<open>s\<close> (node 0). After \<open>b\<close> is evaluated the list of \<open>s\<close> is
  \<open>[a, b]\<close>; after \<open>d\<close> is evaluated it is still \<open>[a, b]\<close>: \<open>d\<close> is not subscribed. After
  \<open>s.value = 2\<close>, \<open>b.value\<close> is 2 and \<open>a.value\<close> is 2, but \<open>d.value\<close> is still 1, and the
  producer of \<open>d\<close> has run once only.
\<close>

theorem second_reader_not_subscribed:
  "items_of 4 (take 5 two_readers_prog) 0 = Some [1, 2] \<and>
   items_of 4 (take 6 two_readers_prog) 0 = Some [1, 2] \<and>
   returns 4 two_readers_prog =
     Some [Inr VNone, Inr VNone, Inr VNone, Inr VNone, Inr (VInt 1), Inr (VInt 1),
           Inr VNone, Inr (VInt 2), Inr (VInt 1), Inr (VInt 2)] \<and>
   emitted 4 two_readers_prog = Some [2, 3, 2]"
  by (simp add: two_readers_prog_def lib_defs eval_nat_numeral)

text \<open>\<open>linked_state\<close> is the state it is said to be.\<close>

lemma linked_state_reached:
  "script 4 [NewSignal (VInt 1), NewEffect (Seq (Read 0) (Emit 0))] init
     = Some ([Inr VNone, Inr VNone], linked_state)"
  by (simp add: linked_state_def lib_defs eval_nat_numeral)

subsection \<open>Disposal\<close>









text \<open>The loop of \<open>cleanup\<close> leaves the pending set as it is.\<close>

lemma batched_put [simp]: "batched (put a n st) = batched st"
  by (simp add: put_def)

lemma batched_discard_item [simp]: "batched (discard_item t x st) = batched st"
  by (simp add: discard_item_def split: option.splits)

lemma batched_fold_discard [simp]:
  "batched (fold (\<lambda>t. discard_item t fx) ss st) = batched st"
  by (induction ss arbitrary: st) simp_all






subsection \<open>Reads inside \<open>untracked\<close>\<close>

text \<open>
  With tracking off, a callback that only reads signals returns, given fuel for its
  depth, and leaves the whole state as it was.
\<close>

lemma reads_only_tracked [simp]: "reads_only (st\<lparr>tracked := b\<rparr>) e = reads_only st e"
  by (induction e) auto

lemma reads_only_returns:
  "\<not> tracked st \<Longrightarrow> reads_only st e \<Longrightarrow> depth e \<le> k \<Longrightarrow> \<exists>r. eval k e st = Some (r, st)"
proof (induction k arbitrary: e)
  case 0
  then show ?case by (cases e) simp_all
next
  case (Suc k)
  note IH = Suc.IH [OF Suc.prems(1)]
  show ?case
  proof (cases e)
    case (Lit v)
    then show ?thesis by (simp add: exec_def ok_def)
  next
    case (Read a)
    with Suc.prems show ?thesis
      by (auto simp: exec_def signal_value_def ok_def split: option.splits)
  next
    case (Peek a)
    with Suc.prems show ?thesis
      by (auto simp: exec_def signal_peek_def ok_def split: option.splits)
  next
    case (Seq e1 e2)
    with Suc.prems obtain r1 r2 where "eval k e1 st = Some (r1, st)" "eval k e2 st = Some (r2, st)"
      using IH [of e1] IH [of e2] by auto
    with Seq show ?thesis
      by (cases r1) (auto simp: exec_def bind_def)
  next
    case (If c e1 e2)
    with Suc.prems obtain r0 r1 r2 where
      "eval k c st = Some (r0, st)" "eval k e1 st = Some (r1, st)" "eval k e2 st = Some (r2, st)"
      using IH [of c] IH [of e1] IH [of e2] by auto
    with If show ?thesis
      by (cases r0) (auto simp: exec_def bind_def)
  next
    case (Plus e1 e2)
    with Suc.prems obtain r1 r2 where "eval k e1 st = Some (r1, st)" "eval k e2 st = Some (r2, st)"
      using IH [of e1] IH [of e2] by auto
    with Plus show ?thesis
      by (cases r1; cases r2)
         (auto simp: exec_def bind_def arith_def ok_def raise_def split: val.splits)
  next
    case (Times e1 e2)
    with Suc.prems obtain r1 r2 where "eval k e1 st = Some (r1, st)" "eval k e2 st = Some (r2, st)"
      using IH [of e1] IH [of e2] by auto
    with Times show ?thesis
      by (cases r1; cases r2)
         (auto simp: exec_def bind_def arith_def ok_def raise_def split: val.splits)
  qed (use Suc.prems in simp_all)
qed

lemma untracked_reads_only:
  assumes "reads_only st e" "depth e \<le> k"
  shows "\<exists>r. eval (Suc k) (Untracked e) st = Some (r, st)"
proof -
  obtain r where "eval k e (st\<lparr>tracked := False\<rparr>) = Some (r, st\<lparr>tracked := False\<rparr>)"
    using reads_only_returns [of "st\<lparr>tracked := False\<rparr>" e k] assms by auto
  then show ?thesis
    by (simp add: exec_def untracked_def finally_do_def Let_def)
qed

lemma untracked_read:
  "lookup st a = Some n \<Longrightarrow> \<not> is_computed n \<Longrightarrow>
   eval (Suc (Suc j)) (Untracked (Read a)) st = Some (Inr (self_value n), st)"
  by (simp add: exec_def untracked_def finally_do_def signal_value_def ok_def Let_def
      split: option.splits)

lemma untracked_restores:
  "untracked ev cb st = Some (r, st') \<Longrightarrow> tracked st' = tracked st"
  by (auto simp: untracked_def finally_do_def Let_def split: option.splits)

lemma untracked_throw: "eval (Suc (Suc j)) (Untracked Throw) st = Some (Inl Raised, st)"
  by (simp add: exec_def untracked_def finally_do_def raise_def)

lemma untracked_example:
  assumes "x \<noteq> y"
  shows "items_of 6 (take 2 (untracked_prog x y)) 0 = Some [] \<and>
     items_of 6 (take 2 (untracked_prog x y)) 1 = Some [] \<and>
     emitted 6 (take 2 (untracked_prog x y)) = Some [0] \<and>
     emitted 6 (untracked_prog x y) = Some [0] \<and>
     globals_of 6 (untracked_prog x y) = Some ([], True, True, None)"
  using assms by (simp add: untracked_prog_def lib_defs eval_nat_numeral)

lemma untracked_example_fuel:
  assumes "6 \<le> k" "x \<noteq> y"
  shows "items_of k (take 2 (untracked_prog x y)) 0 = Some [] \<and>
     items_of k (take 2 (untracked_prog x y)) 1 = Some [] \<and>
     emitted k (take 2 (untracked_prog x y)) = Some [0] \<and>
     emitted k (untracked_prog x y) = Some [0] \<and>
     globals_of k (untracked_prog x y) = Some ([], True, True, None)"
  using untracked_example [OF assms(2)] by (auto intro!: more_fuel [OF _ assms(1)])

text \<open>
  C9. For a callback that only reads and peeks signals and computes with the values,
  \<open>untracked(callback)\<close> returns and leaves the whole state unchanged: every list of
  dependents and every scratch list, and the tracking flag, are as before; a read of a
  signal inside it returns the signal's current value. Whatever the callback does,
  the tracking flag after \<open>untracked\<close> is the flag before it, also when the callback
  raises, as \<open>Throw\<close> does. An effect that reads a signal inside \<open>untracked\<close> only is in
  no list and has an empty list after its first run, and a write to the signal does not
  re-run it.
\<close>

theorem untracked_registers_nothing:
  "(reads_only st e \<and> depth e \<le> k \<longrightarrow> (\<exists>r. eval (Suc k) (Untracked e) st = Some (r, st))) \<and>
   (lookup st a = Some n \<and> \<not> is_computed n \<longrightarrow>
      eval (Suc (Suc j)) (Untracked (Read a)) st = Some (Inr (self_value n), st)) \<and>
   (untracked ev cb st = Some (r', st') \<longrightarrow> tracked st' = tracked st) \<and>
   eval (Suc (Suc j)) (Untracked Throw) st = Some (Inl Raised, st) \<and>
   (6 \<le> k' \<and> x \<noteq> y \<longrightarrow>
     items_of k' (take 2 (untracked_prog x y)) 0 = Some [] \<and>
     items_of k' (take 2 (untracked_prog x y)) 1 = Some [] \<and>
     emitted k' (take 2 (untracked_prog x y)) = Some [0] \<and>
     emitted k' (untracked_prog x y) = Some [0] \<and>
     globals_of k' (untracked_prog x y) = Some ([], True, True, None))"
  using untracked_reads_only [of st e k] untracked_read [of st a n j]
    untracked_restores [of ev cb st r' st'] untracked_throw [of j st]
    untracked_example_fuel [of "k'" x y]
  by blast

text \<open>
  C9 on \<open>linked_state\<close> with the effect 1 as the node being evaluated, for the callback
  \<open>s.value + s.peek()\<close>, and on \<open>untracked_prog 1 2\<close>.
\<close>

theorem untracked_registers_nothing_witness:
  "reads_only linked_state (Plus (Read 0) (Peek 0)) \<and> depth (Plus (Read 0) (Peek 0)) \<le> 2 \<and>
   eval 3 (Untracked (Plus (Read 0) (Peek 0))) (linked_state\<lparr>computing := Some 1\<rparr>)
     = Some (Inr (VInt 2), linked_state\<lparr>computing := Some 1\<rparr>) \<and>
   lookup linked_state 0 = Some (heap linked_state ! 0) \<and>
   \<not> is_computed (heap linked_state ! 0) \<and>
   eval 2 (Untracked (Read 0)) (linked_state\<lparr>computing := Some 1\<rparr>)
     = Some (Inr (VInt 1), linked_state\<lparr>computing := Some 1\<rparr>) \<and>
   untracked (eval 1) Throw (linked_state\<lparr>computing := Some 1\<rparr>)
     = Some (Inl Raised, linked_state\<lparr>computing := Some 1\<rparr>) \<and>
   tracked (linked_state\<lparr>computing := Some 1\<rparr>) \<and>
   (6::nat) \<le> 6 \<and> (1::int) \<noteq> 2 \<and> emitted 6 (untracked_prog 1 2) = Some [0]"
  using untracked_registers_nothing [of "linked_state\<lparr>computing := Some 1\<rparr>"
      "Plus (Read 0) (Peek 0)" 2 0 "heap linked_state ! 0" 0 "eval 1" Throw "Inl Raised"
      "linked_state\<lparr>computing := Some 1\<rparr>" 6 1 2]
  by (simp add: linked_state_def lib_defs eval_nat_numeral)

subsection \<open>A producer that raises\<close>

text \<open>\<open>_run\<close> when the producer raises.\<close>

lemma run_raises:
  assumes "lookup st c = Some n" "self_compute n"
    and "invoke ev c (produce n)
           ((put c (n\<lparr>self_compute := False, items := []\<rparr>) st)\<lparr>computing := Some c\<rparr>)
         = Some (Inl e, st2)"
  shows "run ev c st = Some (Inl e, st2\<lparr>computing := computing st\<rparr>)"
  using assms by (simp add: run_def Let_def bind_def finally_do_def)

lemma raising_example:
  "returns 6 raising_prog =
     Some [Inr VNone, Inr VNone, Inr (VInt 2), Inr VNone, Inl Raised, Inr (VInt 2),
           Inr (VInt 2), Inr VNone, Inr (VInt 10)] \<and>
   dirty_of 6 (take 5 raising_prog) 1 = Some False \<and>
   globals_of 6 (take 5 raising_prog) = Some ([], True, True, None) \<and>
   emitted 6 (take 5 raising_prog) = Some [0, 0] \<and>
   emitted 6 (take 7 raising_prog) = Some [0, 0] \<and>
   emitted 6 raising_prog = Some [0, 0, 0] \<and>
   returns 6 always_raising_prog = Some [Inr VNone, Inl Raised, Inr VNone, Inr VNone] \<and>
   dirty_of 6 (take 2 always_raising_prog) 0 = Some False \<and>
   globals_of 6 (take 2 always_raising_prog) = Some ([], True, True, None) \<and>
   emitted 6 always_raising_prog = Some [0] \<and>
   returns 6 raising_effect_prog = Some [Inr VNone, Inr VNone, Inl Raised, Inr VNone] \<and>
   dirty_of 6 (take 3 raising_effect_prog) 1 = Some False \<and>
   globals_of 6 (take 3 raising_effect_prog) = Some ([], True, True, None) \<and>
   emitted 6 (take 3 raising_effect_prog) = Some [0, 0] \<and>
   emitted 6 raising_effect_prog = Some [0, 0, 0]"
  by (simp add: raising_prog_def always_raising_prog_def raising_effect_prog_def lib_defs
      eval_nat_numeral)

lemma raising_example_fuel:
  assumes "6 \<le> k"
  shows "returns k raising_prog =
     Some [Inr VNone, Inr VNone, Inr (VInt 2), Inr VNone, Inl Raised, Inr (VInt 2),
           Inr (VInt 2), Inr VNone, Inr (VInt 10)] \<and>
   dirty_of k (take 5 raising_prog) 1 = Some False \<and>
   globals_of k (take 5 raising_prog) = Some ([], True, True, None) \<and>
   emitted k (take 5 raising_prog) = Some [0, 0] \<and>
   emitted k (take 7 raising_prog) = Some [0, 0] \<and>
   emitted k raising_prog = Some [0, 0, 0] \<and>
   returns k always_raising_prog = Some [Inr VNone, Inl Raised, Inr VNone, Inr VNone] \<and>
   dirty_of k (take 2 always_raising_prog) 0 = Some False \<and>
   globals_of k (take 2 always_raising_prog) = Some ([], True, True, None) \<and>
   emitted k always_raising_prog = Some [0] \<and>
   returns k raising_effect_prog = Some [Inr VNone, Inr VNone, Inl Raised, Inr VNone] \<and>
   dirty_of k (take 3 raising_effect_prog) 1 = Some False \<and>
   globals_of k (take 3 raising_effect_prog) = Some ([], True, True, None) \<and>
   emitted k (take 3 raising_effect_prog) = Some [0, 0] \<and>
   emitted k raising_effect_prog = Some [0, 0, 0]"
  using raising_example by (auto intro!: more_fuel [OF _ assms])

text \<open>
  C10. When the producer of a dirty node raises, \<open>_run\<close> raises the same error and leaves
  the state the producer left, with \<open>computing\<close> put back: the producer was started with
  the node's dirty flag cleared, and \<open>_run\<close> neither sets the flag again nor assigns
  \<open>_computed\<close>. On a clean node \<open>_run\<close>, \<open>peek\<close> and (at top level) the getter return
  the cached \<open>_computed\<close> without calling the evaluator. In \<open>raising_prog\<close> the computed
  first returns 2; after the signal is made falsy its read raises, it is left clean with
  \<open>computing\<close> equal to \<open>None\<close>, and the next read and peek return the cached 2 with no
  further run of the producer; after a new write the read returns 10. In
  \<open>always_raising_prog\<close> the reads after the failed one return \<open>None\<close>. In
  \<open>raising_effect_prog\<close> the error of the effect's callback reaches the write that
  triggered it, and the effect is left clean.
\<close>

theorem producer_raises_leaves_clean:
  "(lookup st c = Some n \<and> self_compute n \<and>
    invoke ev c (produce n)
      ((put c (n\<lparr>self_compute := False, items := []\<rparr>) st)\<lparr>computing := Some c\<rparr>)
      = Some (Inl e, st2) \<longrightarrow>
      run ev c st = Some (Inl e, st2\<lparr>computing := computing st\<rparr>)) \<and>
   (lookup t d = Some m \<and> \<not> self_compute m \<longrightarrow>
      run ev' d t = ok VNone t \<and> computed_peek ev' d t = ok (self_computed m) t \<and>
      (computing t = None \<longrightarrow> computed_value ev' d t = ok (self_computed m) t)) \<and>
   (6 \<le> k \<longrightarrow>
   returns k raising_prog =
     Some [Inr VNone, Inr VNone, Inr (VInt 2), Inr VNone, Inl Raised, Inr (VInt 2),
           Inr (VInt 2), Inr VNone, Inr (VInt 10)] \<and>
   dirty_of k (take 5 raising_prog) 1 = Some False \<and>
   globals_of k (take 5 raising_prog) = Some ([], True, True, None) \<and>
   emitted k (take 5 raising_prog) = Some [0, 0] \<and>
   emitted k (take 7 raising_prog) = Some [0, 0] \<and>
   emitted k raising_prog = Some [0, 0, 0] \<and>
   returns k always_raising_prog = Some [Inr VNone, Inl Raised, Inr VNone, Inr VNone] \<and>
   dirty_of k (take 2 always_raising_prog) 0 = Some False \<and>
   globals_of k (take 2 always_raising_prog) = Some ([], True, True, None) \<and>
   emitted k always_raising_prog = Some [0] \<and>
   returns k raising_effect_prog = Some [Inr VNone, Inr VNone, Inl Raised, Inr VNone] \<and>
   dirty_of k (take 3 raising_effect_prog) 1 = Some False \<and>
   globals_of k (take 3 raising_effect_prog) = Some ([], True, True, None) \<and>
   emitted k (take 3 raising_effect_prog) = Some [0, 0] \<and>
   emitted k raising_effect_prog = Some [0, 0, 0])"
  using run_raises [of st c n ev e st2] clean_read [of t d m ev'] raising_example_fuel [of k]
  by blast

text \<open>
  C10 on the state holding one computed whose producer raises, and on \<open>raised_state\<close>.
\<close>

theorem producer_raises_leaves_clean_witness:
  "lookup (snd (computed Throw init)) 0 = Some (new_computed (Lambda Throw) False) \<and>
   self_compute (new_computed (Lambda Throw) False) \<and>
   run (eval 1) 0 (snd (computed Throw init)) = Some (Inl Raised, raised_state) \<and>
   lookup raised_state 0 = Some (heap raised_state ! 0) \<and>
   \<not> self_compute (heap raised_state ! 0) \<and> computing raised_state = None \<and>
   run (eval 0) 0 raised_state = ok VNone raised_state \<and>
   computed_peek (eval 0) 0 raised_state = ok VNone raised_state \<and>
   computed_value (eval 0) 0 raised_state = ok VNone raised_state \<and>
   (6::nat) \<le> 6 \<and>
   returns 6 always_raising_prog = Some [Inr VNone, Inl Raised, Inr VNone, Inr VNone] \<and>
   dirty_of 6 (take 5 raising_prog) 1 = Some False"
  using producer_raises_leaves_clean [of "snd (computed Throw init)" 0
      "new_computed (Lambda Throw) False" "eval 1" Raised
      "raised_state\<lparr>computing := Some 0\<rparr>" raised_state 0 "heap raised_state ! 0" "eval 0" 6]
  by (simp add: raised_state_def computed_def init_def lookup_def put_def new_computed_def
      invoke_def exec_def raise_def)

end
